theory Spec2Isabelle
  imports Main "HOL-Library.Sublist" "HOL-Library.AList"
begin

section \<open>Python values\<close>

text \<open>
  The issue helpers of \<^verbatim>\<open>src/git_issues.py\<close> work on what \<^verbatim>\<open>json.load\<close> returns: \<^verbatim>\<open>None\<close>,
  booleans, integers, floats, strings, lists and dictionaries with string keys. A
  dictionary is a map from keys to values; two dictionaries are equal when they hold the
  same values under the same keys, as in Python. Floats are never inspected by the helpers,
  so their type is left abstract.

  A \<open>string\<close> stands for a Python \<^verbatim>\<open>str\<close> whose code points are all below 256, one
  \<open>char\<close> per code point.
\<close>

typedecl pyfloat

datatype json =
    JNull
  | JBool bool
  | JInt int
  | JFloat pyfloat
  | JStr string
  | JArr "json list"
  | JObj "string \<Rightarrow> json option"

type_synonym issue = "string \<Rightarrow> json option"

text \<open>
  The exceptions the helpers raise themselves or let through. In Python
  \<^verbatim>\<open>JSONDecodeError\<close> is a kind of \<^verbatim>\<open>ValueError\<close>; it is kept apart here, so that the two
  format errors \<^verbatim>\<open>load_issues\<close> raises itself can be told from a text that does not parse.
\<close>

datatype error =
    FileNotFoundError string
  | ValueError string
  | JSONDecodeError
  | AttributeError
  | TypeError
  | IsADirectoryError

text \<open>\<^verbatim>\<open>isinstance(x, MutableMapping)\<close> on a JSON value.\<close>

fun is_mapping :: "json \<Rightarrow> bool" where
  "is_mapping (JObj m) = True"
| "is_mapping _ = False"

text \<open>\<^verbatim>\<open>issue.get(key)\<close>: the value under the key, \<^verbatim>\<open>None\<close> when the key is missing.\<close>

definition dict_get :: "issue \<Rightarrow> string \<Rightarrow> json" where
  "dict_get m k = (case m k of None \<Rightarrow> JNull | Some v \<Rightarrow> v)"

text \<open>
  \<^verbatim>\<open>issue.setdefault(key, value)\<close>: stores the value only when the key is missing; a key
  that is present keeps its value, whatever it is.
\<close>

definition setdefault :: "issue \<Rightarrow> string \<Rightarrow> json \<Rightarrow> issue" where
  "setdefault m k v = (case m k of None \<Rightarrow> m(k \<mapsto> v) | Some old \<Rightarrow> m)"

subsection \<open>\<^verbatim>\<open>str.strip\<close> and \<^verbatim>\<open>str.lower\<close>\<close>

text \<open>
  Python's white space below code point 256: the ASCII control characters 9 to 13 and 28
  to 31, the space, and the Latin-1 characters 0x85 and 0xA0.
\<close>

definition isspace :: "char \<Rightarrow> bool" where
  "isspace c = (of_char c \<in> {9, 10, 11, 12, 13, 28, 29, 30, 31, 32, 133, 160 :: nat})"

text \<open>
  Lower case below code point 256: the letters A to Z, and the Latin-1 capitals 0xC0 to
  0xDE but for the multiplication sign 0xD7, move up by 32.
\<close>

definition lower_char :: "char \<Rightarrow> char" where
  "lower_char c =
     (let n = (of_char c :: nat)
      in if (65 \<le> n \<and> n \<le> 90) \<or> (192 \<le> n \<and> n \<le> 222 \<and> n \<noteq> 215)
         then char_of (n + 32) else c)"

definition strip :: "string \<Rightarrow> string" where
  "strip s = rev (dropWhile isspace (rev (dropWhile isspace s)))"

definition lower :: "string \<Rightarrow> string" where
  "lower s = map lower_char s"

section \<open>Status helpers\<close>

text \<open>
  \<^verbatim>\<open>_normalise_status\<close> (lines 47 to 58). \<^verbatim>\<open>None\<close> gives the empty string, a string is
  stripped and lower-cased. Any other value has no \<^verbatim>\<open>strip\<close> method, so the call raises
  \<^verbatim>\<open>AttributeError\<close>.
\<close>

fun normalise_status :: "json \<Rightarrow> error + string" where
  "normalise_status JNull = Inr ''''"
| "normalise_status (JStr status) = Inr (lower (strip status))"
| "normalise_status other = Inl AttributeError"

text \<open>
  The status an operation compares. The same three statements open the loop body of
  \<^verbatim>\<open>list_open_issues\<close> (lines 197 to 201), \<^verbatim>\<open>close_implemented_issues\<close> (228 to 230) and
  \<^verbatim>\<open>complete_open_issues\<close> (262 to 264): normalise the value under \<^verbatim>\<open>status\<close>, and when
  the result is empty normalise the value under \<^verbatim>\<open>state\<close> instead. An entry that is not a
  mapping counts as having neither key.
\<close>

definition issue_status :: "json \<Rightarrow> error + string" where
  "issue_status issue =
     (case normalise_status (case issue of JObj m \<Rightarrow> dict_get m ''status'' | other \<Rightarrow> JNull) of
        Inl e \<Rightarrow> Inl e
      | Inr status \<Rightarrow>
          if status = ''''
          then normalise_status (case issue of JObj m \<Rightarrow> dict_get m ''state'' | other \<Rightarrow> JNull)
          else Inr status)"

text \<open>\<^verbatim>\<open>_ensure_status_key\<close> (lines 61 to 69).\<close>

definition ensure_status_key :: "issue \<Rightarrow> string \<Rightarrow> issue" where
  "ensure_status_key issue new_status =
     (issue(''status'' \<mapsto> JStr new_status))(''state'' \<mapsto> JStr new_status)"

section \<open>The world outside the module\<close>

text \<open>
  A path is its normalised text, components joined by a slash. The file system is a table
  from paths to entries, in the order a directory walk meets them; a regular file holds
  its text. The environment maps variable names to values, and \<open>ticks\<close> counts the calls
  of \<^verbatim>\<open>_timestamp\<close> made so far.
\<close>

type_synonym path = string

datatype entry = File string | Dir

record world =
  entries :: "(path \<times> entry) list"
  environ :: "string \<Rightarrow> string option"
  ticks :: nat

text \<open>
  What the module takes from its platform: \<^verbatim>\<open>json.load\<close> (\<open>None\<close> when the text is not
  JSON), \<^verbatim>\<open>json.dump\<close> with the options of line 175, the text \<^verbatim>\<open>_timestamp\<close> returns at
  its \<open>k\<close>-th call, and the default search root \<^verbatim>\<open>Path(__file__).resolve().parents[1]\<close>.
\<close>

record platform =
  loads :: "string \<Rightarrow> json option"
  dumps :: "json \<Rightarrow> string"
  now :: "nat \<Rightarrow> string"
  module_root :: path

definition is_file :: "world \<Rightarrow> path \<Rightarrow> bool" where
  "is_file w p = (case map_of (entries w) p of Some (File t) \<Rightarrow> True | other \<Rightarrow> False)"

definition path_exists :: "world \<Rightarrow> path \<Rightarrow> bool" where
  "path_exists w p = (case map_of (entries w) p of Some e \<Rightarrow> True | None \<Rightarrow> False)"

definition joinpath :: "path \<Rightarrow> string \<Rightarrow> path" where
  "joinpath p name = p @ ''/'' @ name"

definition path_name :: "path \<Rightarrow> string" where
  "path_name p = rev (takeWhile (\<lambda>c. c \<noteq> CHR ''/'') (rev p))"

text \<open>
  \<^verbatim>\<open>root_path.rglob("*.json")\<close>: every entry below the root, at any depth, whose name ends
  in \<^verbatim>\<open>.json\<close>. Nothing limits the depth, and directories are listed like files.
\<close>

definition rglob_json :: "world \<Rightarrow> path \<Rightarrow> path list" where
  "rglob_json w root =
     (if map_of (entries w) root = Some Dir
      then filter (\<lambda>p. prefix (root @ ''/'') p \<and> suffix ''.json'' (path_name p))
             (map fst (entries w))
      else [])"

definition read_text :: "world \<Rightarrow> path \<Rightarrow> error + string" where
  "read_text w p =
     (case map_of (entries w) p of
        Some (File t) \<Rightarrow> Inr t
      | Some Dir \<Rightarrow> Inl IsADirectoryError
      | None \<Rightarrow> Inl (FileNotFoundError p))"

definition write_text :: "world \<Rightarrow> path \<Rightarrow> string \<Rightarrow> error + world" where
  "write_text w p t =
     (case map_of (entries w) p of
        Some Dir \<Rightarrow> Inl IsADirectoryError
      | other \<Rightarrow> Inr (w\<lparr>entries := AList.update p (File t) (entries w)\<rparr>))"

section \<open>Locating, loading and saving the issues file\<close>

definition DEFAULT_ISSUE_FILE_CANDIDATES :: "string list" where
  "DEFAULT_ISSUE_FILE_CANDIDATES =
     [''git_issues.json'', ''GitIssues.json'', ''issues.json'', ''git-issues.json'',
      ''Git Issues.json'']"

text \<open>\<^verbatim>\<open>find_issues_file\<close> (lines 78 to 135).\<close>

definition find_issues_file ::
  "platform \<Rightarrow> world \<Rightarrow> path option \<Rightarrow> path option \<Rightarrow> string list \<Rightarrow> error + path" where
  "find_issues_file P w explicit_path search_root candidates =
     (case explicit_path of
        Some path \<Rightarrow>
          if \<not> is_file w path
          then Inl (FileNotFoundError (''Issues file not found at '' @ path))
          else Inr path
      | None \<Rightarrow>
          (case (case environ w ''GIT_ISSUES_FILE'' of
                   None \<Rightarrow> None
                 | Some env_path \<Rightarrow>
                     if env_path \<noteq> '''' \<and> is_file w env_path then Some env_path else None) of
             Some path \<Rightarrow> Inr path
           | None \<Rightarrow>
               let root_path = (case search_root of None \<Rightarrow> module_root P | Some r \<Rightarrow> r)
               in (case find (\<lambda>candidate. is_file w (joinpath root_path candidate)) candidates of
                     Some candidate \<Rightarrow> Inr (joinpath root_path candidate)
                   | None \<Rightarrow>
                       let git_dir = joinpath root_path ''.git''
                       in (case (if path_exists w git_dir
                                 then find (\<lambda>candidate. is_file w (joinpath git_dir candidate))
                                        candidates
                                 else None) of
                             Some candidate \<Rightarrow> Inr (joinpath git_dir candidate)
                           | None \<Rightarrow>
                               (case find (\<lambda>path. path_name path \<in> set candidates)
                                       (rglob_json w root_path) of
                                  Some path \<Rightarrow> Inr path
                                | None \<Rightarrow>
                                    Inl (FileNotFoundError
                                          ''Unable to locate a Git Issues JSON file''))))))"

text \<open>The loop of \<^verbatim>\<open>load_issues\<close> (lines 153 to 157), with its list \<^verbatim>\<open>normalised\<close>.\<close>

fun collect_issues :: "json list \<Rightarrow> json list \<Rightarrow> error + json list" where
  "collect_issues [] normalised = Inr normalised"
| "collect_issues (item # rest) normalised =
     (if \<not> is_mapping item then Inl (ValueError ''Each issue entry must be a JSON object'')
      else collect_issues rest (normalised @ [item]))"

text \<open>\<^verbatim>\<open>load_issues\<close> (lines 138 to 159).\<close>

definition load_issues :: "platform \<Rightarrow> world \<Rightarrow> path option \<Rightarrow> error + json list" where
  "load_issues P w file_path =
     (case find_issues_file P w file_path None DEFAULT_ISSUE_FILE_CANDIDATES of
        Inl e \<Rightarrow> Inl e
      | Inr issues_path \<Rightarrow>
          (case read_text w issues_path of
             Inl e \<Rightarrow> Inl e
           | Inr t \<Rightarrow>
               (case loads P t of
                  None \<Rightarrow> Inl JSONDecodeError
                | Some data \<Rightarrow>
                    (case data of
                       JArr items \<Rightarrow> collect_issues items []
                     | other \<Rightarrow> Inl (ValueError ''The issues file must contain a JSON list'')))))"

text \<open>
  \<^verbatim>\<open>save_issues\<close> (lines 162 to 177): the located file receives the dump of the list and a
  newline.
\<close>

definition save_issues ::
  "platform \<Rightarrow> world \<Rightarrow> json list \<Rightarrow> path option \<Rightarrow> error + (path \<times> world)" where
  "save_issues P w issues file_path =
     (case find_issues_file P w file_path None DEFAULT_ISSUE_FILE_CANDIDATES of
        Inl e \<Rightarrow> Inl e
      | Inr issues_path \<Rightarrow>
          (case write_text w issues_path (dumps P (JArr issues) @ [CHR 0x0A]) of
             Inl e \<Rightarrow> Inl e
           | Inr w' \<Rightarrow> Inr (issues_path, w')))"

section \<open>Query and mutation\<close>

definition open_statuses :: "string set" where
  "open_statuses = {''open'', ''opened'', ''todo'', ''backlog'', ''in_progress''}"

text \<open>The loop of \<^verbatim>\<open>list_open_issues\<close> (lines 195 to 203), with its list \<^verbatim>\<open>result\<close>.\<close>

fun list_open_loop :: "json list \<Rightarrow> json list \<Rightarrow> error + json list" where
  "list_open_loop [] result = Inr result"
| "list_open_loop (issue # rest) result =
     (case issue_status issue of
        Inl e \<Rightarrow> Inl e
      | Inr status \<Rightarrow>
          list_open_loop rest (if status \<in> open_statuses then result @ [issue] else result))"

text \<open>\<^verbatim>\<open>list_open_issues\<close> (lines 180 to 205).\<close>

definition list_open_issues ::
  "platform \<Rightarrow> world \<Rightarrow> json list option \<Rightarrow> path option \<Rightarrow> error + json list" where
  "list_open_issues P w issues file_path =
     (case (case issues of None \<Rightarrow> load_issues P w file_path | Some given \<Rightarrow> Inr given) of
        Inl e \<Rightarrow> Inl e
      | Inr loaded \<Rightarrow> list_open_loop loaded [])"

text \<open>
  The loop bodies of \<^verbatim>\<open>close_implemented_issues\<close> (lines 228 to 234) and
  \<^verbatim>\<open>complete_open_issues\<close> (lines 262 to 268) are the same statements with three
  differences: the statuses that match, the new status, and the key of the time stamp.
  \<open>mark_issue\<close> is that body with the three as parameters. \<^verbatim>\<open>_timestamp()\<close> is an
  argument of \<^verbatim>\<open>setdefault\<close>, so it is called for every matching issue, whether or not
  the key is missing. The dictionary is changed in place; the model returns its new value.
  A matching entry is a mapping, since an entry that is not one has the empty status; the
  branch for another kind of entry is what the subscript assignment would raise.

  The entries of a sequence are taken to be distinct objects, as the ones \<^verbatim>\<open>load_issues\<close>
  returns are. When an entry raises, the loop stops there and the model returns the error
  alone, without the entries already changed.
\<close>

definition mark_issue ::
  "platform \<Rightarrow> string set \<Rightarrow> string \<Rightarrow> string \<Rightarrow> json \<Rightarrow> nat \<Rightarrow> error + (json \<times> nat)" where
  "mark_issue P matching new_status stamp_key issue t =
     (case issue_status issue of
        Inl e \<Rightarrow> Inl e
      | Inr status \<Rightarrow>
          if status \<in> matching
          then (case issue of
                  JObj m \<Rightarrow>
                    Inr (JObj (setdefault (ensure_status_key m new_status) stamp_key
                                 (JStr (now P t))),
                         Suc t)
                | other \<Rightarrow> Inl TypeError)
          else Inr (issue, t))"

fun mark_loop ::
  "platform \<Rightarrow> string set \<Rightarrow> string \<Rightarrow> string \<Rightarrow> json list \<Rightarrow> nat \<Rightarrow>
   error + (json list \<times> nat)" where
  "mark_loop P matching new_status stamp_key [] t = Inr ([], t)"
| "mark_loop P matching new_status stamp_key (issue # rest) t =
     (case mark_issue P matching new_status stamp_key issue t of
        Inl e \<Rightarrow> Inl e
      | Inr (issue', t') \<Rightarrow>
          (case mark_loop P matching new_status stamp_key rest t' of
             Inl e \<Rightarrow> Inl e
           | Inr (rest', t'') \<Rightarrow> Inr (issue' # rest', t'')))"

text \<open>\<^verbatim>\<open>close_implemented_issues\<close> (lines 208 to 239).\<close>

definition close_implemented_issues ::
  "platform \<Rightarrow> world \<Rightarrow> json list option \<Rightarrow> path option \<Rightarrow> error + (json list \<times> world)" where
  "close_implemented_issues P w issues file_path =
     (case (case issues of
              None \<Rightarrow> (case load_issues P w file_path of
                         Inl e \<Rightarrow> Inl e
                       | Inr loaded \<Rightarrow> Inr (loaded, True))
            | Some given \<Rightarrow> Inr (given, False)) of
        Inl e \<Rightarrow> Inl e
      | Inr (current, persist) \<Rightarrow>
          (case mark_loop P {''implemented''} ''closed'' ''closed_at'' current (ticks w) of
             Inl e \<Rightarrow> Inl e
           | Inr (updated, t) \<Rightarrow>
               if persist
               then (case save_issues P (w\<lparr>ticks := t\<rparr>) updated file_path of
                       Inl e \<Rightarrow> Inl e
                     | Inr (written, w') \<Rightarrow> Inr (updated, w'))
               else Inr (updated, w\<lparr>ticks := t\<rparr>)))"

text \<open>\<^verbatim>\<open>complete_open_issues\<close> (lines 242 to 273).\<close>

definition complete_open_issues ::
  "platform \<Rightarrow> world \<Rightarrow> json list option \<Rightarrow> path option \<Rightarrow> error + (json list \<times> world)" where
  "complete_open_issues P w issues file_path =
     (case (case issues of
              None \<Rightarrow> (case load_issues P w file_path of
                         Inl e \<Rightarrow> Inl e
                       | Inr loaded \<Rightarrow> Inr (loaded, True))
            | Some given \<Rightarrow> Inr (given, False)) of
        Inl e \<Rightarrow> Inl e
      | Inr (current, persist) \<Rightarrow>
          (case mark_loop P {''open'', ''opened''} ''completed'' ''completed_at'' current
                  (ticks w) of
             Inl e \<Rightarrow> Inl e
           | Inr (updated, t) \<Rightarrow>
               if persist
               then (case save_issues P (w\<lparr>ticks := t\<rparr>) updated file_path of
                       Inl e \<Rightarrow> Inl e
                     | Inr (written, w') \<Rightarrow> Inr (updated, w'))
               else Inr (updated, w\<lparr>ticks := t\<rparr>)))"

section \<open>Notions of the specification\<close>

text \<open>
  The sequence an operation works on (lines 191 to 192, 221 to 225, 255 to 259): the one
  the caller supplied, or else the one loaded from the issues file.
\<close>

definition working_issues ::
  "platform \<Rightarrow> world \<Rightarrow> json list option \<Rightarrow> path option \<Rightarrow> error + json list" where
  "working_issues P w issues file_path =
     (case issues of None \<Rightarrow> load_issues P w file_path | Some given \<Rightarrow> Inr given)"

text \<open>
  The normalised status in the specification's words: the value under \<^verbatim>\<open>status\<close>,
  lower-cased and trimmed, a missing value being the empty string; when that is empty, the
  value under \<^verbatim>\<open>state\<close>, treated the same way.
\<close>

fun spec_normalise :: "json \<Rightarrow> string" where
  "spec_normalise (JStr s) = lower (strip s)"
| "spec_normalise other = ''''"

definition spec_normalised_status :: "json \<Rightarrow> string" where
  "spec_normalised_status x =
     (case x of
        JObj m \<Rightarrow>
          if spec_normalise (dict_get m ''status'') = ''''
          then spec_normalise (dict_get m ''state'')
          else spec_normalise (dict_get m ''status'')
      | other \<Rightarrow> '''')"

text \<open>
  The entries whose status the operations can read: the value under \<^verbatim>\<open>status\<close> is text,
  or \<^verbatim>\<open>null\<close> (which \<^verbatim>\<open>get\<close> cannot tell from a missing key), and so is the value under
  \<^verbatim>\<open>state\<close> whenever the status is empty, which is when the code looks at it. This is the
  parameter type \<^verbatim>\<open>str | None\<close> of \<^verbatim>\<open>_normalise_status\<close>. An entry that is not a mapping is
  read as having neither key.
\<close>

fun text_or_none :: "json \<Rightarrow> bool" where
  "text_or_none JNull = True"
| "text_or_none (JStr s) = True"
| "text_or_none other = False"

definition status_readable :: "json \<Rightarrow> bool" where
  "status_readable x =
     (case x of
        JObj m \<Rightarrow>
          text_or_none (dict_get m ''status'') \<and>
          (spec_normalise (dict_get m ''status'') = '''' \<longrightarrow>
             text_or_none (dict_get m ''state''))
      | other \<Rightarrow> True)"

text \<open>
  The code reads the status of an entry without raising, and reads what the specification
  calls its normalised status.
\<close>

abbreviation readable :: "json \<Rightarrow> bool" where
  "readable x \<equiv> issue_status x = Inr (spec_normalised_status x)"

text \<open>
  How one entry \<open>x\<close> and its value \<open>y\<close> after a mutation loop are related, when the loop
  read the clock between its calls \<open>lo\<close> and \<open>hi\<close>.
\<close>

definition marked ::
  "platform \<Rightarrow> string set \<Rightarrow> string \<Rightarrow> string \<Rightarrow> nat \<Rightarrow> nat \<Rightarrow> json \<Rightarrow> json \<Rightarrow> bool" where
  "marked P matching new_status stamp_key lo hi x y =
     (if spec_normalised_status x \<in> matching
      then (\<exists>m k. lo \<le> k \<and> k < hi \<and> x = JObj m \<and>
              y = JObj (setdefault (ensure_status_key m new_status) stamp_key (JStr (now P k))))
      else y = x)"

text \<open>
  The common shape of \<^verbatim>\<open>close_implemented_issues\<close> and \<^verbatim>\<open>complete_open_issues\<close>, so
  that what holds of both is proved once.
\<close>

definition mark_issues ::
  "string set \<Rightarrow> string \<Rightarrow> string \<Rightarrow> platform \<Rightarrow> world \<Rightarrow> json list option \<Rightarrow> path option \<Rightarrow>
   error + (json list \<times> world)" where
  "mark_issues matching new_status stamp_key P w issues file_path =
     (case working_issues P w issues file_path of
        Inl e \<Rightarrow> Inl e
      | Inr current \<Rightarrow>
          (case mark_loop P matching new_status stamp_key current (ticks w) of
             Inl e \<Rightarrow> Inl e
           | Inr (updated, t) \<Rightarrow>
               if issues = None
               then (case save_issues P (w\<lparr>ticks := t\<rparr>) updated file_path of
                       Inl e \<Rightarrow> Inl e
                     | Inr (written, w') \<Rightarrow> Inr (updated, w'))
               else Inr (updated, w\<lparr>ticks := t\<rparr>)))"

subsection \<open>A concrete setting\<close>

text \<open>
  The three issues of the test fixture (\<^verbatim>\<open>tests/test_git_issues.py\<close>, lines 13 to 17), a
  platform whose JSON codec knows that one document (under two texts, the stored one and
  the one it dumps), and a repository holding one issues file. A second list has a status
  in capitals between spaces, a \<^verbatim>\<open>todo\<close> issue, and an issue whose \<^verbatim>\<open>status\<close> and \<^verbatim>\<open>state\<close>
  disagree.
\<close>

definition example_issues :: "json list" where
  "example_issues =
     [JObj [''id'' \<mapsto> JInt 1, ''title'' \<mapsto> JStr ''First'', ''status'' \<mapsto> JStr ''open''],
      JObj [''id'' \<mapsto> JInt 2, ''title'' \<mapsto> JStr ''Second'', ''status'' \<mapsto> JStr ''implemented''],
      JObj [''id'' \<mapsto> JInt 3, ''title'' \<mapsto> JStr ''Third'', ''state'' \<mapsto> JStr ''closed'']]"

definition example_board :: "json list" where
  "example_board =
     [JObj [''id'' \<mapsto> JInt 1, ''status'' \<mapsto> JStr '' Open ''],
      JObj [''id'' \<mapsto> JInt 2, ''status'' \<mapsto> JStr ''todo''],
      JObj [''id'' \<mapsto> JInt 3, ''status'' \<mapsto> JStr ''closed'', ''state'' \<mapsto> JStr ''open'']]"

definition example_platform :: platform where
  "example_platform =
     \<lparr>loads = (\<lambda>t. if t = ''stored'' \<or> t = ''dumped'' @ [CHR 0x0A]
                   then Some (JArr example_issues) else None),
      dumps = (\<lambda>d. ''dumped''),
      now = (\<lambda>k. ''2024-01-01T00:00:00+00:00''),
      module_root = ''/repo''\<rparr>"

definition example_world :: world where
  "example_world =
     \<lparr>entries = [(''/repo'', Dir), (''/repo/git_issues.json'', File ''stored'')],
      environ = Map.empty,
      ticks = 0\<rparr>"

text \<open>
  Two repositories for the directory scan: one whose only JSON file lies inside four nested
  directories below the root, and one where a directory bears a candidate name.
\<close>

definition example_deep_world :: world where
  "example_deep_world =
     \<lparr>entries =
        [(''/repo'', Dir), (''/repo/a'', Dir), (''/repo/a/b'', Dir), (''/repo/a/b/c'', Dir),
         (''/repo/a/b/c/d'', Dir), (''/repo/a/b/c/d/issues.json'', File ''stored'')],
      environ = Map.empty,
      ticks = 0\<rparr>"

definition example_dir_world :: world where
  "example_dir_world =
     \<lparr>entries = [(''/repo'', Dir), (''/repo/sub'', Dir), (''/repo/sub/issues.json'', Dir)],
      environ = Map.empty,
      ticks = 0\<rparr>"

text \<open>
  A repository with one candidate in its root and another in \<^verbatim>\<open>.git\<close>, a file outside it,
  and an environment variable that names a missing file.
\<close>

definition example_git_world :: world where
  "example_git_world =
     \<lparr>entries =
        [(''/repo'', Dir), (''/repo/.git'', Dir), (''/repo/.git/git_issues.json'', File ''a''),
         (''/repo/issues.json'', File ''b''), (''/elsewhere.json'', File ''c'')],
      environ = [''GIT_ISSUES_FILE'' \<mapsto> ''/missing.json''],
      ticks = 0\<rparr>"

section \<open>Reading the status\<close>

lemmas string_ops = lower_def strip_def isspace_def lower_char_def char_of_def bit_0

lemma normalise_status_Inr: "normalise_status v = Inr s \<Longrightarrow> spec_normalise v = s"
  by (cases v) auto

lemma normalise_status_text: "text_or_none v \<Longrightarrow> normalise_status v = Inr (spec_normalise v)"
  by (cases v) auto

lemma issue_status_Inr: "issue_status x = Inr s \<Longrightarrow> spec_normalised_status x = s"
  by (cases x)
    (auto simp: issue_status_def spec_normalised_status_def
          split: sum.splits if_splits dest: normalise_status_Inr)

lemma normalise_status_other: "\<not> text_or_none v \<Longrightarrow> normalise_status v = Inl AttributeError"
  by (cases v) auto

lemma status_readable_status:
  "status_readable x \<Longrightarrow> issue_status x = Inr (spec_normalised_status x)"
  by (cases x)
    (auto simp: status_readable_def issue_status_def spec_normalised_status_def
      normalise_status_text)

lemma issue_status_raises:
  assumes "\<not> status_readable x"
  shows "issue_status x = Inl AttributeError"
proof -
  from assms obtain m where m: "x = JObj m"
    by (cases x) (auto simp: status_readable_def)
  show ?thesis
  proof (cases "text_or_none (dict_get m ''status'')")
    case True
    with assms m have "spec_normalise (dict_get m ''status'') = ''''"
      and "\<not> text_or_none (dict_get m ''state'')"
      by (auto simp: status_readable_def)
    with True m show ?thesis
      by (simp add: issue_status_def normalise_status_text normalise_status_other)
  next
    case False
    with m show ?thesis
      by (simp add: issue_status_def normalise_status_other)
  qed
qed

lemma all_status_readable: "list_all status_readable xs \<Longrightarrow> list_all readable xs"
  by (induction xs) (simp_all add: status_readable_status)

lemma spec_status_mapping:
  "spec_normalised_status x \<noteq> '''' \<Longrightarrow> \<exists>m. x = JObj m"
  by (cases x) (auto simp: spec_normalised_status_def)

section \<open>Listing the open issues\<close>

lemma list_open_loop_filter:
  "list_all readable xs \<Longrightarrow>
   list_open_loop xs acc = Inr (acc @ filter (\<lambda>x. spec_normalised_status x \<in> open_statuses) xs)"
  by (induction xs arbitrary: acc) auto

text \<open>
  C1. On every sequence of issues, supplied or loaded, whose statuses are text, \<^verbatim>\<open>null\<close> or
  missing where the code reads them, \<^verbatim>\<open>list_open_issues\<close> returns exactly the issues whose
  normalised status is one of \<^verbatim>\<open>open\<close>, \<^verbatim>\<open>opened\<close>, \<^verbatim>\<open>todo\<close>, \<^verbatim>\<open>backlog\<close> and
  \<^verbatim>\<open>in_progress\<close>, in their original order.
\<close>

theorem list_open_issues_filter:
  assumes "working_issues P w issues file_path = Inr current"
    and "list_all status_readable current"
  shows "list_open_issues P w issues file_path =
           Inr (filter (\<lambda>x. spec_normalised_status x \<in> open_statuses) current)"
proof -
  from assms(2) have "list_all readable current"
    by (rule all_status_readable)
  then have "list_open_loop current [] =
      Inr ([] @ filter (\<lambda>x. spec_normalised_status x \<in> open_statuses) current)"
    by (rule list_open_loop_filter)
  with assms(1) show ?thesis
    by (simp add: list_open_issues_def working_issues_def)
qed

theorem list_open_issues_filter_witness:
  "working_issues example_platform example_world (Some example_issues) None = Inr example_issues \<and>
   list_all status_readable example_issues \<and>
   list_open_issues example_platform example_world (Some example_issues) None =
     Inr [JObj [''id'' \<mapsto> JInt 1, ''title'' \<mapsto> JStr ''First'', ''status'' \<mapsto> JStr ''open'']]"
proof -
  have h1: "working_issues example_platform example_world (Some example_issues) None =
      Inr example_issues"
    by (simp add: working_issues_def)
  have h2: "list_all status_readable example_issues"
    by (simp add: example_issues_def status_readable_def dict_get_def)
  have "filter (\<lambda>x. spec_normalised_status x \<in> open_statuses) example_issues =
      [JObj [''id'' \<mapsto> JInt 1, ''title'' \<mapsto> JStr ''First'', ''status'' \<mapsto> JStr ''open'']]"
    by (simp add: example_issues_def spec_normalised_status_def dict_get_def open_statuses_def
        string_ops)
  with list_open_issues_filter [OF h1 h2] h1 h2 show ?thesis by simp
qed

section \<open>The mutation loop\<close>

lemma marked_mono:
  assumes "marked P M ns sk lo hi x y" and "lo' \<le> lo" and "hi \<le> hi'"
  shows "marked P M ns sk lo' hi' x y"
proof (cases "spec_normalised_status x \<in> M")
  case True
  with assms(1) obtain m k where
    k: "lo \<le> k" "k < hi" "x = JObj m"
      "y = JObj (setdefault (ensure_status_key m ns) sk (JStr (now P k)))"
    unfolding marked_def by auto
  from k(1,2) assms(2,3) have "lo' \<le> k" "k < hi'" by simp_all
  with k(3,4) True show ?thesis unfolding marked_def by auto
next
  case False
  with assms(1) show ?thesis unfolding marked_def by simp
qed

lemma marked_fields:
  assumes "marked P M ns sk lo hi x y" and "spec_normalised_status x \<in> M"
    and "sk \<noteq> ''status''" and "sk \<noteq> ''state''"
  shows "\<exists>m m'. x = JObj m \<and> y = JObj m' \<and>
           m' ''status'' = Some (JStr ns) \<and> m' ''state'' = Some (JStr ns) \<and>
           (case m sk of
              Some v \<Rightarrow> m' sk = Some v
            | None \<Rightarrow> (\<exists>k. lo \<le> k \<and> k < hi \<and> m' sk = Some (JStr (now P k)))) \<and>
           (\<forall>key. key \<notin> {''status'', ''state'', sk} \<longrightarrow> m' key = m key)"
proof -
  from assms(1,2) obtain m k where
    k: "lo \<le> k" "k < hi" "x = JObj m"
      "y = JObj (setdefault (ensure_status_key m ns) sk (JStr (now P k)))"
    unfolding marked_def by auto
  define m' where "m' = setdefault (ensure_status_key m ns) sk (JStr (now P k))"
  have "m' ''status'' = Some (JStr ns)" "m' ''state'' = Some (JStr ns)"
    using assms(3,4) by (simp_all add: m'_def setdefault_def ensure_status_key_def split: option.splits)
  moreover have "case m sk of
              Some v \<Rightarrow> m' sk = Some v
            | None \<Rightarrow> (\<exists>k. lo \<le> k \<and> k < hi \<and> m' sk = Some (JStr (now P k)))"
    using assms(3,4) k(1,2)
    by (auto simp: m'_def setdefault_def ensure_status_key_def split: option.splits)
  moreover have "\<forall>key. key \<notin> {''status'', ''state'', sk} \<longrightarrow> m' key = m key"
    by (simp add: m'_def setdefault_def ensure_status_key_def split: option.splits)
  ultimately show ?thesis using k(3,4) unfolding m'_def by blast
qed

lemma marked_other:
  "marked P M ns sk lo hi x y \<Longrightarrow> spec_normalised_status x \<notin> M \<Longrightarrow> y = x"
  by (simp add: marked_def)

lemma mark_issue_readable:
  assumes "readable x" and "'''' \<notin> M"
  shows "\<exists>y t'. mark_issue P M ns sk x t = Inr (y, t') \<and> t \<le> t' \<and> marked P M ns sk t t' x y"
proof (cases "spec_normalised_status x \<in> M")
  case True
  with assms(2) have "spec_normalised_status x \<noteq> ''''" by auto
  then obtain m where m: "x = JObj m" using spec_status_mapping by blast
  with True assms(1) show ?thesis
    by (auto simp: mark_issue_def marked_def)
next
  case False
  with assms(1) show ?thesis
    by (auto simp: mark_issue_def marked_def)
qed

lemma mark_loop_readable:
  assumes "list_all readable xs" and "'''' \<notin> M"
  shows "\<exists>ys t'. mark_loop P M ns sk xs t = Inr (ys, t') \<and> t \<le> t' \<and>
           list_all2 (marked P M ns sk t t') xs ys"
  using assms(1)
proof (induction xs arbitrary: t)
  case Nil
  then show ?case by simp
next
  case (Cons x xs)
  from Cons.prems have rx: "readable x" and rxs: "list_all readable xs" by simp_all
  from mark_issue_readable [OF rx assms(2)] obtain y t1 where
    y: "mark_issue P M ns sk x t = Inr (y, t1)" "t \<le> t1" "marked P M ns sk t t1 x y"
    by blast
  from Cons.IH [OF rxs] obtain ys t2 where
    ys: "mark_loop P M ns sk xs t1 = Inr (ys, t2)" "t1 \<le> t2"
      "list_all2 (marked P M ns sk t1 t2) xs ys"
    by blast
  have "marked P M ns sk t t2 x y"
    using y(3) ys(2) by (auto intro: marked_mono)
  moreover have "list_all2 (marked P M ns sk t t2) xs ys"
    using ys(3) y(2) by (auto elim!: list_all2_mono intro: marked_mono)
  ultimately show ?case using y ys by auto
qed

lemma mark_issue_Inr:
  "mark_issue P M ns sk x t = Inr (y, t') \<Longrightarrow> readable x"
  by (auto simp: mark_issue_def split: sum.splits dest: issue_status_Inr)

lemma mark_loop_Inr:
  "mark_loop P M ns sk xs t = Inr (ys, t') \<Longrightarrow> list_all readable xs"
  by (induction xs arbitrary: t ys)
    (auto split: sum.splits prod.splits dest: mark_issue_Inr)

lemma mark_loop_unmatched:
  "list_all (\<lambda>x. readable x \<and> spec_normalised_status x \<notin> M) xs \<Longrightarrow>
   mark_loop P M ns sk xs t = Inr (xs, t)"
  by (induction xs) (auto simp: mark_issue_def)

lemma close_implemented_issues_mark:
  "close_implemented_issues = mark_issues {''implemented''} ''closed'' ''closed_at''"
  by (auto simp: fun_eq_iff close_implemented_issues_def mark_issues_def working_issues_def
      split: option.splits sum.splits prod.splits)

lemma complete_open_issues_mark:
  "complete_open_issues = mark_issues {''open'', ''opened''} ''completed'' ''completed_at''"
  by (auto simp: fun_eq_iff complete_open_issues_def mark_issues_def working_issues_def
      split: option.splits sum.splits prod.splits)

lemma is_file_ticks: "is_file (w\<lparr>ticks := t\<rparr>) = is_file w"
  by (simp add: fun_eq_iff is_file_def)

lemma path_exists_ticks: "path_exists (w\<lparr>ticks := t\<rparr>) = path_exists w"
  by (simp add: fun_eq_iff path_exists_def)

lemma rglob_json_ticks: "rglob_json (w\<lparr>ticks := t\<rparr>) = rglob_json w"
  by (simp add: fun_eq_iff rglob_json_def)

lemma environ_ticks: "environ (w\<lparr>ticks := t\<rparr>) = environ w"
  by simp

lemma find_issues_file_ticks:
  "find_issues_file P (w\<lparr>ticks := t\<rparr>) fp root cs = find_issues_file P w fp root cs"
  unfolding find_issues_file_def is_file_ticks path_exists_ticks rglob_json_ticks environ_ticks
  by (rule refl)

lemma load_issues_file:
  assumes "load_issues P w fp = Inr issues"
  shows "\<exists>p t. find_issues_file P w fp None DEFAULT_ISSUE_FILE_CANDIDATES = Inr p \<and>
           map_of (entries w) p = Some (File t)"
  using assms
  by (auto simp: load_issues_def read_text_def split: sum.splits option.splits entry.splits)

lemma mark_issues_returns:
  assumes "working_issues P w arg fp = Inr issues"
    and "list_all readable issues" and "'''' \<notin> M"
  shows "\<exists>updated w'. mark_issues M ns sk P w arg fp = Inr (updated, w') \<and>
           ticks w \<le> ticks w' \<and>
           list_all2 (marked P M ns sk (ticks w) (ticks w')) issues updated \<and>
           mark_loop P M ns sk issues (ticks w) = Inr (updated, ticks w') \<and>
           environ w' = environ w \<and>
           (case arg of
              Some given \<Rightarrow> entries w' = entries w
            | None \<Rightarrow>
                (\<exists>p. find_issues_file P w fp None DEFAULT_ISSUE_FILE_CANDIDATES = Inr p \<and>
                   entries w' =
                     AList.update p (File (dumps P (JArr updated) @ [CHR 0x0A])) (entries w)))"
proof -
  from mark_loop_readable [OF assms(2,3)] obtain updated t' where
    loop: "mark_loop P M ns sk issues (ticks w) = Inr (updated, t')" "ticks w \<le> t'"
      "list_all2 (marked P M ns sk (ticks w) t') issues updated"
    by blast
  show ?thesis
  proof (cases arg)
    case (Some given)
    with assms(1) loop show ?thesis
      by (simp add: mark_issues_def working_issues_def)
  next
    case None
    with assms(1) have "load_issues P w fp = Inr issues"
      by (simp add: working_issues_def)
    from load_issues_file [OF this] obtain p t where
      p: "find_issues_file P w fp None DEFAULT_ISSUE_FILE_CANDIDATES = Inr p"
        "map_of (entries w) p = Some (File t)"
      by blast
    with None assms(1) loop show ?thesis
      by (simp add: mark_issues_def save_issues_def write_text_def find_issues_file_ticks)
  qed
qed

lemma mark_issues_Inr:
  assumes "mark_issues M ns sk P w arg fp = Inr (updated, w')"
  shows "\<exists>issues. working_issues P w arg fp = Inr issues \<and> list_all readable issues"
  using assms
  by (auto simp: mark_issues_def split: sum.splits prod.splits if_splits dest: mark_loop_Inr)

subsection \<open>The concrete setting\<close>

lemma example_loaded:
  "working_issues example_platform example_world None None = Inr example_issues"
  by (simp add: working_issues_def load_issues_def find_issues_file_def example_world_def
      example_platform_def DEFAULT_ISSUE_FILE_CANDIDATES_def is_file_def joinpath_def
      read_text_def example_issues_def)

lemma example_records: "list_all status_readable example_issues"
  by (simp add: example_issues_def status_readable_def dict_get_def)

section \<open>Closing the implemented issues\<close>

text \<open>
  C2. On every sequence of issues, supplied or loaded, whose statuses are text, \<^verbatim>\<open>null\<close> or
  missing where the code reads them, \<^verbatim>\<open>close_implemented_issues\<close> returns, and every
  issue whose normalised status was \<^verbatim>\<open>implemented\<close> then has \<^verbatim>\<open>status\<close>
  and \<^verbatim>\<open>state\<close> equal to \<^verbatim>\<open>closed\<close> and has a \<^verbatim>\<open>closed_at\<close> field: the value it had
  before when the key was present, and otherwise a time stamp read from the clock during
  this call.
\<close>

theorem close_implemented_issues_closes:
  assumes "working_issues P w issues file_path = Inr current"
    and "list_all status_readable current"
  shows "\<exists>updated w'.
           close_implemented_issues P w issues file_path = Inr (updated, w') \<and>
           length updated = length current \<and>
           (\<forall>i<length current.
              spec_normalised_status (current ! i) = ''implemented'' \<longrightarrow>
              (\<exists>m m'. current ! i = JObj m \<and> updated ! i = JObj m' \<and>
                 m' ''status'' = Some (JStr ''closed'') \<and>
                 m' ''state'' = Some (JStr ''closed'') \<and>
                 (case m ''closed_at'' of
                    Some v \<Rightarrow> m' ''closed_at'' = Some v
                  | None \<Rightarrow>
                      (\<exists>k. ticks w \<le> k \<and> k < ticks w' \<and>
                         m' ''closed_at'' = Some (JStr (now P k))))))"
proof -
  from assms(2) have "list_all readable current" by (rule all_status_readable)
  from mark_issues_returns [OF assms(1) this, of "{''implemented''}" "''closed''" "''closed_at''"]
  obtain updated w' where
    run: "close_implemented_issues P w issues file_path = Inr (updated, w')"
      and rel: "list_all2 (marked P {''implemented''} ''closed'' ''closed_at'' (ticks w) (ticks w'))
        current updated"
    by (auto simp: close_implemented_issues_mark)
  from rel have len: "length updated = length current"
    by (simp add: list_all2_lengthD)
  have "\<exists>m m'. current ! i = JObj m \<and> updated ! i = JObj m' \<and>
                 m' ''status'' = Some (JStr ''closed'') \<and>
                 m' ''state'' = Some (JStr ''closed'') \<and>
                 (case m ''closed_at'' of
                    Some v \<Rightarrow> m' ''closed_at'' = Some v
                  | None \<Rightarrow>
                      (\<exists>k. ticks w \<le> k \<and> k < ticks w' \<and>
                         m' ''closed_at'' = Some (JStr (now P k))))"
    if i: "i < length current" and s: "spec_normalised_status (current ! i) = ''implemented''"
    for i
  proof -
    from rel i have
      "marked P {''implemented''} ''closed'' ''closed_at'' (ticks w) (ticks w')
         (current ! i) (updated ! i)"
      by (rule list_all2_nthD)
    from marked_fields [OF this] s show ?thesis by fastforce
  qed
  with run len show ?thesis by blast
qed

theorem close_implemented_issues_closes_witness:
  "working_issues example_platform example_world None None = Inr example_issues \<and>
   list_all status_readable example_issues \<and>
   (\<exists>updated w'.
      close_implemented_issues example_platform example_world None None = Inr (updated, w') \<and>
      length updated = 3 \<and>
      (\<exists>m'. updated ! 1 = JObj m' \<and>
         m' ''status'' = Some (JStr ''closed'') \<and>
         m' ''state'' = Some (JStr ''closed'') \<and>
         m' ''closed_at'' = Some (JStr ''2024-01-01T00:00:00+00:00'')))"
proof -
  from close_implemented_issues_closes [OF example_loaded example_records]
  obtain updated w' where
    run: "close_implemented_issues example_platform example_world None None = Inr (updated, w')"
      and len: "length updated = length example_issues"
      and each: "\<forall>i<length example_issues.
              spec_normalised_status (example_issues ! i) = ''implemented'' \<longrightarrow>
              (\<exists>m m'. example_issues ! i = JObj m \<and> updated ! i = JObj m' \<and>
                 m' ''status'' = Some (JStr ''closed'') \<and>
                 m' ''state'' = Some (JStr ''closed'') \<and>
                 (case m ''closed_at'' of
                    Some v \<Rightarrow> m' ''closed_at'' = Some v
                  | None \<Rightarrow>
                      (\<exists>k. ticks example_world \<le> k \<and> k < ticks w' \<and>
                         m' ''closed_at'' = Some (JStr (now example_platform k)))))"
    by blast
  have "spec_normalised_status (example_issues ! 1) = ''implemented''"
    by (simp add: example_issues_def spec_normalised_status_def dict_get_def string_ops)
  with each obtain m m' where
    m: "example_issues ! 1 = JObj m" "updated ! 1 = JObj m'"
      "m' ''status'' = Some (JStr ''closed'')" "m' ''state'' = Some (JStr ''closed'')"
      "case m ''closed_at'' of
         Some v \<Rightarrow> m' ''closed_at'' = Some v
       | None \<Rightarrow> (\<exists>k. ticks example_world \<le> k \<and> k < ticks w' \<and>
                    m' ''closed_at'' = Some (JStr (now example_platform k)))"
    by (auto simp: example_issues_def)
  from m(1) have "m ''closed_at'' = None"
    by (auto simp: example_issues_def)
  with m(5) have "m' ''closed_at'' = Some (JStr ''2024-01-01T00:00:00+00:00'')"
    by (auto simp: example_platform_def)
  with run len m(2,3,4) example_loaded example_records show ?thesis
    by (auto simp: example_issues_def)
qed

lemma example_board_records: "list_all status_readable example_board"
  by (simp add: example_board_def status_readable_def dict_get_def)

lemma example_board_supplied:
  "working_issues P w (Some example_board) fp = Inr example_board"
  by (simp add: working_issues_def)

section \<open>Completing the open issues\<close>

text \<open>
  C3. On every sequence of issues, supplied or loaded, whose statuses are text, \<^verbatim>\<open>null\<close> or
  missing where the code reads them, \<^verbatim>\<open>complete_open_issues\<close> returns. Every issue
  whose normalised status was \<^verbatim>\<open>open\<close> or \<^verbatim>\<open>opened\<close> then has
  \<^verbatim>\<open>status\<close> and \<^verbatim>\<open>state\<close> equal to \<^verbatim>\<open>completed\<close> and has a \<^verbatim>\<open>completed_at\<close> field: the
  value it had before when the key was present, and otherwise a time stamp read from the
  clock during this call. Every other issue, \<^verbatim>\<open>todo\<close>, \<^verbatim>\<open>backlog\<close> and \<^verbatim>\<open>in_progress\<close>
  included, is returned as it was.
\<close>

theorem complete_open_issues_completes:
  assumes "working_issues P w issues file_path = Inr current"
    and "list_all status_readable current"
  shows "\<exists>updated w'.
           complete_open_issues P w issues file_path = Inr (updated, w') \<and>
           length updated = length current \<and>
           (\<forall>i<length current.
              if spec_normalised_status (current ! i) \<in> {''open'', ''opened''}
              then (\<exists>m m'. current ! i = JObj m \<and> updated ! i = JObj m' \<and>
                      m' ''status'' = Some (JStr ''completed'') \<and>
                      m' ''state'' = Some (JStr ''completed'') \<and>
                      (case m ''completed_at'' of
                         Some v \<Rightarrow> m' ''completed_at'' = Some v
                       | None \<Rightarrow>
                           (\<exists>k. ticks w \<le> k \<and> k < ticks w' \<and>
                              m' ''completed_at'' = Some (JStr (now P k)))))
              else updated ! i = current ! i)"
proof -
  from assms(2) have "list_all readable current" by (rule all_status_readable)
  from mark_issues_returns [OF assms(1) this,
      of "{''open'', ''opened''}" "''completed''" "''completed_at''"]
  obtain updated w' where
    run: "complete_open_issues P w issues file_path = Inr (updated, w')"
      and rel: "list_all2
        (marked P {''open'', ''opened''} ''completed'' ''completed_at'' (ticks w) (ticks w'))
        current updated"
    by (auto simp: complete_open_issues_mark)
  from rel have len: "length updated = length current"
    by (simp add: list_all2_lengthD)
  have "if spec_normalised_status (current ! i) \<in> {''open'', ''opened''}
        then (\<exists>m m'. current ! i = JObj m \<and> updated ! i = JObj m' \<and>
                m' ''status'' = Some (JStr ''completed'') \<and>
                m' ''state'' = Some (JStr ''completed'') \<and>
                (case m ''completed_at'' of
                   Some v \<Rightarrow> m' ''completed_at'' = Some v
                 | None \<Rightarrow>
                     (\<exists>k. ticks w \<le> k \<and> k < ticks w' \<and>
                        m' ''completed_at'' = Some (JStr (now P k)))))
        else updated ! i = current ! i"
    if i: "i < length current" for i
  proof -
    from rel i have one:
      "marked P {''open'', ''opened''} ''completed'' ''completed_at'' (ticks w) (ticks w')
         (current ! i) (updated ! i)"
      by (rule list_all2_nthD)
    show ?thesis
    proof (cases "spec_normalised_status (current ! i) \<in> {''open'', ''opened''}")
      case True
      from marked_fields [OF one True] True show ?thesis by fastforce
    next
      case False
      from marked_other [OF one False] False show ?thesis by simp
    qed
  qed
  with run len show ?thesis by blast
qed

theorem complete_open_issues_completes_witness:
  "working_issues example_platform example_world (Some example_board) None = Inr example_board \<and>
   list_all status_readable example_board \<and>
   (\<exists>updated w'.
      complete_open_issues example_platform example_world (Some example_board) None =
        Inr (updated, w') \<and>
      length updated = 3 \<and>
      (\<exists>m'. updated ! 0 = JObj m' \<and>
         m' ''status'' = Some (JStr ''completed'') \<and>
         m' ''state'' = Some (JStr ''completed'') \<and>
         m' ''completed_at'' = Some (JStr ''2024-01-01T00:00:00+00:00'')) \<and>
      updated ! 1 = JObj [''id'' \<mapsto> JInt 2, ''status'' \<mapsto> JStr ''todo''])"
proof -
  from complete_open_issues_completes [OF example_board_supplied example_board_records]
  obtain updated w' where
    run: "complete_open_issues example_platform example_world (Some example_board) None =
        Inr (updated, w')"
      and len: "length updated = length example_board"
      and each: "\<forall>i<length example_board.
              if spec_normalised_status (example_board ! i) \<in> {''open'', ''opened''}
              then (\<exists>m m'. example_board ! i = JObj m \<and> updated ! i = JObj m' \<and>
                      m' ''status'' = Some (JStr ''completed'') \<and>
                      m' ''state'' = Some (JStr ''completed'') \<and>
                      (case m ''completed_at'' of
                         Some v \<Rightarrow> m' ''completed_at'' = Some v
                       | None \<Rightarrow>
                           (\<exists>k. ticks example_world \<le> k \<and> k < ticks w' \<and>
                              m' ''completed_at'' = Some (JStr (now example_platform k)))))
              else updated ! i = example_board ! i"
    by blast
  have s0: "spec_normalised_status (example_board ! 0) \<in> {''open'', ''opened''}"
    by (simp add: example_board_def spec_normalised_status_def dict_get_def string_ops)
  have s1: "spec_normalised_status (example_board ! 1) \<notin> {''open'', ''opened''}"
    by (simp add: example_board_def spec_normalised_status_def dict_get_def string_ops)
  have l0: "0 < length example_board" and l1: "1 < length example_board"
    by (simp_all add: example_board_def)
  from each [rule_format, OF l0] s0 obtain m m' where
    m: "example_board ! 0 = JObj m" "updated ! 0 = JObj m'"
      "m' ''status'' = Some (JStr ''completed'')" "m' ''state'' = Some (JStr ''completed'')"
      "case m ''completed_at'' of
         Some v \<Rightarrow> m' ''completed_at'' = Some v
       | None \<Rightarrow> (\<exists>k. ticks example_world \<le> k \<and> k < ticks w' \<and>
                    m' ''completed_at'' = Some (JStr (now example_platform k)))"
    by auto
  from m(1) have "m ''completed_at'' = None"
    by (auto simp: example_board_def)
  with m(5) have stamp: "m' ''completed_at'' = Some (JStr ''2024-01-01T00:00:00+00:00'')"
    by (auto simp: example_platform_def)
  from each [rule_format, OF l1] s1 have "updated ! 1 = example_board ! 1"
    by simp
  then have "updated ! 1 = JObj [''id'' \<mapsto> JInt 2, ''status'' \<mapsto> JStr ''todo'']"
    by (simp add: example_board_def)
  with run len m(2,3,4) stamp example_board_supplied example_board_records show ?thesis
    by (auto simp: example_board_def)
qed

section \<open>What the mutations leave alone\<close>

text \<open>
  C4. On every sequence of issues whose statuses are text, \<^verbatim>\<open>null\<close> or missing where the
  code reads them, either mutation returns a sequence of the same length whose entry at
  each position comes from the entry at that position: an issue that does not match is
  unchanged, and
  an issue that matches keeps every field but \<^verbatim>\<open>status\<close>, \<^verbatim>\<open>state\<close> and the time stamp of
  the operation.
\<close>

theorem mutations_frame:
  assumes "operation = close_implemented_issues \<and> matching = {''implemented''} \<and>
             stamp_key = ''closed_at'' \<or>
           operation = complete_open_issues \<and> matching = {''open'', ''opened''} \<and>
             stamp_key = ''completed_at''"
    and "working_issues P w issues file_path = Inr current"
    and "list_all status_readable current"
  shows "\<exists>updated w'.
           operation P w issues file_path = Inr (updated, w') \<and>
           length updated = length current \<and>
           (\<forall>i<length current.
              if spec_normalised_status (current ! i) \<in> matching
              then (\<exists>m m'. current ! i = JObj m \<and> updated ! i = JObj m' \<and>
                      (\<forall>key. key \<notin> {''status'', ''state'', stamp_key} \<longrightarrow> m' key = m key))
              else updated ! i = current ! i)"
proof -
  from assms(1) obtain new_status where
    op: "operation = mark_issues matching new_status stamp_key"
      and keys: "'''' \<notin> matching" "stamp_key \<noteq> ''status''" "stamp_key \<noteq> ''state''"
    by (auto simp: close_implemented_issues_mark complete_open_issues_mark)
  from assms(3) have "list_all readable current" by (rule all_status_readable)
  from mark_issues_returns [OF assms(2) this keys(1), of new_status stamp_key]
  obtain updated w' where
    run: "operation P w issues file_path = Inr (updated, w')"
      and rel: "list_all2 (marked P matching new_status stamp_key (ticks w) (ticks w'))
        current updated"
    by (auto simp: op)
  from rel have len: "length updated = length current"
    by (simp add: list_all2_lengthD)
  have "if spec_normalised_status (current ! i) \<in> matching
        then (\<exists>m m'. current ! i = JObj m \<and> updated ! i = JObj m' \<and>
                (\<forall>key. key \<notin> {''status'', ''state'', stamp_key} \<longrightarrow> m' key = m key))
        else updated ! i = current ! i"
    if i: "i < length current" for i
  proof -
    from rel i have one:
      "marked P matching new_status stamp_key (ticks w) (ticks w') (current ! i) (updated ! i)"
      by (rule list_all2_nthD)
    show ?thesis
    proof (cases "spec_normalised_status (current ! i) \<in> matching")
      case True
      from marked_fields [OF one True keys(2,3)] True show ?thesis by fastforce
    next
      case False
      from marked_other [OF one False] False show ?thesis by simp
    qed
  qed
  with run len show ?thesis by blast
qed

theorem mutations_frame_witness:
  "working_issues example_platform example_world None None = Inr example_issues \<and>
   list_all status_readable example_issues \<and>
   (\<exists>updated w'.
      close_implemented_issues example_platform example_world None None = Inr (updated, w') \<and>
      length updated = 3 \<and>
      updated ! 0 = example_issues ! 0 \<and>
      updated ! 2 = example_issues ! 2 \<and>
      (\<exists>m'. updated ! 1 = JObj m' \<and>
         m' ''id'' = Some (JInt 2) \<and> m' ''title'' = Some (JStr ''Second'')))"
proof -
  have "close_implemented_issues = close_implemented_issues \<and>
          {''implemented''} = {''implemented''} \<and> ''closed_at'' = ''closed_at'' \<or>
        close_implemented_issues = complete_open_issues \<and>
          {''implemented''} = {''open'', ''opened''} \<and> ''closed_at'' = ''completed_at''"
    by simp
  from mutations_frame [OF this example_loaded example_records]
  obtain updated w' where
    run: "close_implemented_issues example_platform example_world None None = Inr (updated, w')"
      and len: "length updated = length example_issues"
      and each: "\<forall>i<length example_issues.
              if spec_normalised_status (example_issues ! i) \<in> {''implemented''}
              then (\<exists>m m'. example_issues ! i = JObj m \<and> updated ! i = JObj m' \<and>
                      (\<forall>key. key \<notin> {''status'', ''state'', ''closed_at''} \<longrightarrow> m' key = m key))
              else updated ! i = example_issues ! i"
    by blast
  have l: "0 < length example_issues" "1 < length example_issues" "2 < length example_issues"
    by (simp_all add: example_issues_def)
  have s: "spec_normalised_status (example_issues ! 0) \<notin> {''implemented''}"
    "spec_normalised_status (example_issues ! 1) \<in> {''implemented''}"
    "spec_normalised_status (example_issues ! 2) \<notin> {''implemented''}"
    by (simp_all add: example_issues_def spec_normalised_status_def dict_get_def string_ops)
  from each [rule_format, OF l(1)] s(1) have u0: "updated ! 0 = example_issues ! 0" by simp
  from each [rule_format, OF l(3)] s(3) have u2: "updated ! 2 = example_issues ! 2" by simp
  from each [rule_format, OF l(2)] s(2) obtain m m' where
    m: "example_issues ! 1 = JObj m" "updated ! 1 = JObj m'"
      "\<forall>key. key \<notin> {''status'', ''state'', ''closed_at''} \<longrightarrow> m' key = m key"
    by auto
  from m(1) have "m ''id'' = Some (JInt 2)" "m ''title'' = Some (JStr ''Second'')"
    by (auto simp: example_issues_def)
  with m(3) have "m' ''id'' = Some (JInt 2)" "m' ''title'' = Some (JStr ''Second'')"
    by simp_all
  with run len u0 u2 m(2) example_loaded example_records show ?thesis
    by (auto simp: example_issues_def)
qed

section \<open>Writing the file back\<close>

lemma mutation_cases:
  assumes "operation = close_implemented_issues \<or> operation = complete_open_issues"
  shows "\<exists>M ns sk. operation = mark_issues M ns sk \<and> '''' \<notin> M"
  using assms
  by (auto simp: close_implemented_issues_mark complete_open_issues_mark)

text \<open>
  C5. When either mutation returns, the file system is as it was if the caller supplied
  the sequence; if the caller supplied none, the one change is that the located issues
  file holds the dump of the updated sequence and a newline.
\<close>

theorem mutations_persist_when_loaded:
  assumes "operation = close_implemented_issues \<or> operation = complete_open_issues"
    and "operation P w issues file_path = Inr (updated, w')"
  shows "case issues of
           Some given \<Rightarrow> entries w' = entries w
         | None \<Rightarrow>
             (\<exists>p. find_issues_file P w file_path None DEFAULT_ISSUE_FILE_CANDIDATES = Inr p \<and>
                entries w' =
                  AList.update p (File (dumps P (JArr updated) @ [CHR 0x0A])) (entries w) \<and>
                read_text w' p = Inr (dumps P (JArr updated) @ [CHR 0x0A]))"
proof -
  from mutation_cases [OF assms(1)] obtain M ns sk where
    op: "operation = mark_issues M ns sk" and M: "'''' \<notin> M"
    by blast
  from assms(2) have run: "mark_issues M ns sk P w issues file_path = Inr (updated, w')"
    by (simp add: op)
  from mark_issues_Inr [OF run] obtain current where
    cur: "working_issues P w issues file_path = Inr current" "list_all readable current"
    by blast
  from mark_issues_returns [OF cur M, of ns sk] run
  have "case issues of
           Some given \<Rightarrow> entries w' = entries w
         | None \<Rightarrow>
             (\<exists>p. find_issues_file P w file_path None DEFAULT_ISSUE_FILE_CANDIDATES = Inr p \<and>
                entries w' =
                  AList.update p (File (dumps P (JArr updated) @ [CHR 0x0A])) (entries w))"
    by auto
  then show ?thesis
    by (auto simp: read_text_def update_conv' split: option.splits)
qed

lemma example_found:
  "find_issues_file example_platform example_world None None DEFAULT_ISSUE_FILE_CANDIDATES =
     Inr ''/repo/git_issues.json''"
  by (simp add: find_issues_file_def example_world_def example_platform_def
      DEFAULT_ISSUE_FILE_CANDIDATES_def is_file_def joinpath_def)

theorem mutations_persist_when_loaded_witness:
  "(\<exists>updated w'.
      close_implemented_issues example_platform example_world (Some example_issues) None =
        Inr (updated, w') \<and>
      entries w' = entries example_world) \<and>
   (\<exists>updated w'.
      complete_open_issues example_platform example_world None None = Inr (updated, w') \<and>
      read_text example_world ''/repo/git_issues.json'' = Inr ''stored'' \<and>
      read_text w' ''/repo/git_issues.json'' = Inr (''dumped'' @ [CHR 0x0A]))"
proof -
  have supplied:
    "working_issues example_platform example_world (Some example_issues) None = Inr example_issues"
    by (simp add: working_issues_def)
  from mark_issues_returns [OF supplied all_status_readable [OF example_records],
      of "{''implemented''}" "''closed''" "''closed_at''"]
  obtain u1 w1 where
    r1: "close_implemented_issues example_platform example_world (Some example_issues) None =
        Inr (u1, w1)"
    by (auto simp: close_implemented_issues_mark)
  from mark_issues_returns [OF example_loaded all_status_readable [OF example_records],
      of "{''open'', ''opened''}" "''completed''" "''completed_at''"]
  obtain u2 w2 where
    r2: "complete_open_issues example_platform example_world None None = Inr (u2, w2)"
    by (auto simp: complete_open_issues_mark)
  from mutations_persist_when_loaded [of close_implemented_issues, OF _ r1]
  have e1: "entries w1 = entries example_world"
    by simp
  from mutations_persist_when_loaded [of complete_open_issues, OF _ r2]
  have e2: "read_text w2 ''/repo/git_issues.json'' = Inr (''dumped'' @ [CHR 0x0A])"
    by (simp add: example_found) (simp add: example_platform_def)
  have "read_text example_world ''/repo/git_issues.json'' = Inr ''stored''"
    by (simp add: read_text_def example_world_def)
  with r1 e1 r2 e2 show ?thesis by blast
qed

section \<open>Which key decides\<close>

lemma status_text_readable:
  assumes "m ''status'' = Some (JStr s)" and "lower (strip s) \<noteq> ''''"
  shows "issue_status (JObj m) = Inr (lower (strip s))"
    and "spec_normalised_status (JObj m) = lower (strip s)"
  using assms by (simp_all add: issue_status_def spec_normalised_status_def dict_get_def)

lemma marked_settled:
  assumes "marked P M ns sk lo hi x y" and "readable x"
    and "lower (strip ns) \<notin> M" and "lower (strip ns) \<noteq> ''''" and "sk \<noteq> ''status''"
  shows "readable y \<and> spec_normalised_status y \<notin> M"
proof (cases "spec_normalised_status x \<in> M")
  case True
  with assms(1) obtain m k where
    y: "y = JObj (setdefault (ensure_status_key m ns) sk (JStr (now P k)))"
    unfolding marked_def by auto
  define m' where "m' = setdefault (ensure_status_key m ns) sk (JStr (now P k))"
  have "m' ''status'' = Some (JStr ns)"
    using assms(5) by (simp add: m'_def setdefault_def ensure_status_key_def split: option.splits)
  from status_text_readable [of m' ns, OF this assms(4)] assms(3) y show ?thesis
    by (simp add: m'_def)
next
  case False
  with assms(1) have "y = x" by (simp add: marked_def)
  with False assms(2) show ?thesis by simp
qed

lemma mark_loop_settled:
  assumes "list_all2 (marked P M ns sk lo hi) xs ys" and "list_all readable xs"
    and "lower (strip ns) \<notin> M" and "lower (strip ns) \<noteq> ''''" and "sk \<noteq> ''status''"
  shows "list_all (\<lambda>y. readable y \<and> spec_normalised_status y \<notin> M) ys"
  using assms(1,2)
proof (induction xs ys rule: list_all2_induct)
  case Nil
  then show ?case by simp
next
  case (Cons x xs y ys)
  from Cons.prems have "readable x" by simp
  from marked_settled [OF Cons.hyps(1) this assms(3,4,5)]
  have "readable y \<and> spec_normalised_status y \<notin> M" .
  with Cons show ?case by simp
qed

text \<open>
  C9. An issue whose \<^verbatim>\<open>status\<close> is text that does not normalise to the empty string is
  matched on that text alone, whatever it holds under \<^verbatim>\<open>state\<close>, text or not: it is
  listed as open exactly when the normalised \<^verbatim>\<open>status\<close> is an open status, and each
  mutation changes it exactly when the normalised \<^verbatim>\<open>status\<close> is one the mutation matches.
  Of the other entries of the sequence, the statuses are text, \<^verbatim>\<open>null\<close> or missing where
  the code reads them.
\<close>

theorem state_ignored_when_status_present:
  assumes "working_issues P w issues file_path = Inr current"
    and "i < length current" and "current ! i = JObj m"
    and "m ''status'' = Some (JStr s)" and "lower (strip s) \<noteq> ''''"
    and "\<forall>j<length current. j \<noteq> i \<longrightarrow> status_readable (current ! j)"
  shows "(\<exists>listed. list_open_issues P w issues file_path = Inr listed \<and>
            (JObj m \<in> set listed \<longleftrightarrow> lower (strip s) \<in> open_statuses)) \<and>
         (\<exists>updated w'. close_implemented_issues P w issues file_path = Inr (updated, w') \<and>
            (updated ! i = JObj m \<longleftrightarrow> lower (strip s) \<noteq> ''implemented'')) \<and>
         (\<exists>updated w'. complete_open_issues P w issues file_path = Inr (updated, w') \<and>
            (updated ! i = JObj m \<longleftrightarrow> lower (strip s) \<notin> {''open'', ''opened''}))"
proof -
  note st = status_text_readable [of m s, OF assms(4,5)]
  have all: "list_all readable current"
    unfolding list_all_length
  proof (intro allI impI)
    fix j assume j: "j < length current"
    show "readable (current ! j)"
    proof (cases "j = i")
      case True
      with assms(3) st show ?thesis by simp
    next
      case False
      with assms(6) j show ?thesis by (simp add: status_readable_status)
    qed
  qed
  have mem: "JObj m \<in> set current"
    using assms(2,3) by (metis nth_mem)
  have listed: "\<exists>listed. list_open_issues P w issues file_path = Inr listed \<and>
            (JObj m \<in> set listed \<longleftrightarrow> lower (strip s) \<in> open_statuses)"
    using assms(1) list_open_loop_filter [OF all, of "[]"] mem st(2)
    by (simp add: list_open_issues_def working_issues_def)
  have mutated: "\<exists>updated w'. mark_issues M ns sk P w issues file_path = Inr (updated, w') \<and>
            (updated ! i = JObj m \<longleftrightarrow> lower (strip s) \<notin> M)"
    if M: "'''' \<notin> M" and ns: "lower (strip ns) \<notin> M" "lower (strip ns) \<noteq> ''''"
      and sk: "sk \<noteq> ''status''" "sk \<noteq> ''state''"
    for M ns sk
  proof -
    from mark_issues_returns [OF assms(1) all M, of ns sk] obtain updated w' where
      run: "mark_issues M ns sk P w issues file_path = Inr (updated, w')"
        and rel: "list_all2 (marked P M ns sk (ticks w) (ticks w')) current updated"
      by blast
    from rel assms(2) have one:
      "marked P M ns sk (ticks w) (ticks w') (current ! i) (updated ! i)"
      by (rule list_all2_nthD)
    have "updated ! i = JObj m \<longleftrightarrow> lower (strip s) \<notin> M"
    proof (cases "lower (strip s) \<in> M")
      case True
      from one assms(3) st have "readable (JObj m)" "marked P M ns sk (ticks w) (ticks w') (JObj m) (updated ! i)"
        by simp_all
      from marked_settled [OF this(2,1) ns sk(1)] st(2) True show ?thesis by auto
    next
      case False
      with one assms(3) st(2) show ?thesis by (simp add: marked_def)
    qed
    with run show ?thesis by blast
  qed
  have "\<exists>updated w'. close_implemented_issues P w issues file_path = Inr (updated, w') \<and>
            (updated ! i = JObj m \<longleftrightarrow> lower (strip s) \<noteq> ''implemented'')"
    using mutated [of "{''implemented''}" "''closed''" "''closed_at''"]
    by (simp add: close_implemented_issues_mark string_ops)
  moreover
  have "\<exists>updated w'. complete_open_issues P w issues file_path = Inr (updated, w') \<and>
            (updated ! i = JObj m \<longleftrightarrow> lower (strip s) \<notin> {''open'', ''opened''})"
    using mutated [of "{''open'', ''opened''}" "''completed''" "''completed_at''"]
    by (simp add: complete_open_issues_mark string_ops)
  ultimately show ?thesis using listed by blast
qed

theorem state_ignored_when_status_present_witness:
  "working_issues example_platform example_world (Some example_board) None = Inr example_board \<and>
   example_board ! 2 =
     JObj [''id'' \<mapsto> JInt 3, ''status'' \<mapsto> JStr ''closed'', ''state'' \<mapsto> JStr ''open''] \<and>
   lower (strip ''closed'') = ''closed'' \<and>
   list_all status_readable example_board \<and>
   (\<exists>listed. list_open_issues example_platform example_world (Some example_board) None =
        Inr listed \<and>
      JObj [''id'' \<mapsto> JInt 3, ''status'' \<mapsto> JStr ''closed'', ''state'' \<mapsto> JStr ''open'']
        \<notin> set listed) \<and>
   (\<exists>updated w'. close_implemented_issues example_platform example_world (Some example_board)
        None = Inr (updated, w') \<and>
      updated ! 2 =
        JObj [''id'' \<mapsto> JInt 3, ''status'' \<mapsto> JStr ''closed'', ''state'' \<mapsto> JStr ''open'']) \<and>
   (\<exists>updated w'. complete_open_issues example_platform example_world (Some example_board)
        None = Inr (updated, w') \<and>
      updated ! 2 =
        JObj [''id'' \<mapsto> JInt 3, ''status'' \<mapsto> JStr ''closed'', ''state'' \<mapsto> JStr ''open''])"
proof -
  define m where
    "m = [''id'' \<mapsto> JInt 3, ''status'' \<mapsto> JStr ''closed'', ''state'' \<mapsto> JStr ''open'']"
  have h2: "2 < length example_board" by (simp add: example_board_def)
  have h3: "example_board ! 2 = JObj m" by (simp add: example_board_def m_def)
  have h4: "m ''status'' = Some (JStr ''closed'')" by (simp add: m_def)
  have low: "lower (strip ''closed'') = ''closed''" by (simp add: string_ops)
  then have h5: "lower (strip ''closed'') \<noteq> ''''" by simp
  have h6: "\<forall>j<length example_board. j \<noteq> 2 \<longrightarrow> status_readable (example_board ! j)"
    using example_board_records by (simp add: list_all_length)
  from state_ignored_when_status_present
    [of example_platform example_world "Some example_board" None example_board 2 m "''closed''",
     OF example_board_supplied h2 h3 h4 h5 h6]
  show ?thesis
    using h3 example_board_supplied example_board_records
    by (simp add: low open_statuses_def m_def)
qed

section \<open>Applying a mutation twice\<close>

text \<open>
  C10. When a mutation of a supplied sequence returns, no issue of the result has a
  normalised status the mutation matches, and the same mutation applied to the result
  returns the result again and leaves the world as it is.
\<close>

theorem mutations_idempotent:
  assumes "operation = close_implemented_issues \<and> matching = {''implemented''} \<or>
           operation = complete_open_issues \<and> matching = {''open'', ''opened''}"
    and "operation P w (Some issues) file_path = Inr (updated, w')"
  shows "operation P w' (Some updated) file_path' = Inr (updated, w') \<and>
         (\<forall>x\<in>set updated. spec_normalised_status x \<notin> matching)"
proof -
  from assms(1) obtain ns sk where
    op: "operation = mark_issues matching ns sk"
      and M: "'''' \<notin> matching"
      and ns: "lower (strip ns) \<notin> matching" "lower (strip ns) \<noteq> ''''"
      and sk: "sk \<noteq> ''status''"
    by (auto simp: close_implemented_issues_mark complete_open_issues_mark string_ops)
  from assms(2) have run: "mark_issues matching ns sk P w (Some issues) file_path = Inr (updated, w')"
    by (simp add: op)
  from mark_issues_Inr [OF run] have cur:
    "working_issues P w (Some issues) file_path = Inr issues" "list_all readable issues"
    by (simp_all add: working_issues_def)
  from mark_issues_returns [OF cur M, of ns sk] run
  have rel: "list_all2 (marked P matching ns sk (ticks w) (ticks w')) issues updated"
    by auto
  from mark_loop_settled [OF rel cur(2) ns sk]
  have settled: "list_all (\<lambda>y. readable y \<and> spec_normalised_status y \<notin> matching) updated" .
  from mark_loop_unmatched [OF settled]
  have "mark_loop P matching ns sk updated (ticks w') = Inr (updated, ticks w')" .
  then have "operation P w' (Some updated) file_path' = Inr (updated, w')"
    by (simp add: op mark_issues_def working_issues_def)
  moreover from settled have "\<forall>x\<in>set updated. spec_normalised_status x \<notin> matching"
    by (simp add: list_all_iff)
  ultimately show ?thesis by simp
qed

lemma example_close_run:
  "\<exists>updated w'.
     close_implemented_issues example_platform example_world (Some example_issues) None =
       Inr (updated, w') \<and>
     (\<exists>m'. updated ! 1 = JObj m' \<and> m' ''status'' = Some (JStr ''closed''))"
proof -
  have supplied:
    "working_issues example_platform example_world (Some example_issues) None = Inr example_issues"
    by (simp add: working_issues_def)
  from mark_issues_returns [OF supplied all_status_readable [OF example_records],
      of "{''implemented''}" "''closed''" "''closed_at''"]
  obtain updated w' where
    run: "close_implemented_issues example_platform example_world (Some example_issues) None =
        Inr (updated, w')"
      and rel: "list_all2
        (marked example_platform {''implemented''} ''closed'' ''closed_at''
           (ticks example_world) (ticks w'))
        example_issues updated"
    by (auto simp: close_implemented_issues_mark)
  have l: "1 < length example_issues"
    and s: "spec_normalised_status (example_issues ! 1) \<in> {''implemented''}"
    by (simp_all add: example_issues_def spec_normalised_status_def dict_get_def string_ops)
  from rel l have
    "marked example_platform {''implemented''} ''closed'' ''closed_at''
       (ticks example_world) (ticks w') (example_issues ! 1) (updated ! 1)"
    by (rule list_all2_nthD)
  from marked_fields [OF this s]
  have "\<exists>m'. updated ! 1 = JObj m' \<and> m' ''status'' = Some (JStr ''closed'')"
    by auto
  with run show ?thesis by blast
qed

theorem mutations_idempotent_witness:
  "\<exists>updated w'.
     close_implemented_issues example_platform example_world (Some example_issues) None =
       Inr (updated, w') \<and>
     close_implemented_issues example_platform w' (Some updated) None = Inr (updated, w') \<and>
     (\<exists>m'. updated ! 1 = JObj m' \<and> m' ''status'' = Some (JStr ''closed'')) \<and>
     list_all (\<lambda>x. spec_normalised_status x \<noteq> ''implemented'') updated"
proof -
  from example_close_run obtain updated w' where
    run: "close_implemented_issues example_platform example_world (Some example_issues) None =
        Inr (updated, w')"
      and closed: "\<exists>m'. updated ! 1 = JObj m' \<and> m' ''status'' = Some (JStr ''closed'')"
    by blast
  have "close_implemented_issues = close_implemented_issues \<and>
          {''implemented''} = {''implemented''} \<or>
        close_implemented_issues = complete_open_issues \<and>
          {''implemented''} = {''open'', ''opened''}"
    by simp
  from mutations_idempotent [OF this run, of None]
  have "close_implemented_issues example_platform w' (Some updated) None = Inr (updated, w')"
    and "list_all (\<lambda>x. spec_normalised_status x \<noteq> ''implemented'') updated"
    by (simp_all add: list_all_iff)
  with run closed show ?thesis by blast
qed

section \<open>Loading and saving\<close>

lemma collect_issues_all:
  "collect_issues items acc =
     (if list_all is_mapping items then Inr (acc @ items)
      else Inl (ValueError ''Each issue entry must be a JSON object''))"
  by (induction items arbitrary: acc) auto

lemma example_file: "read_text example_world ''/repo/git_issues.json'' = Inr ''stored''"
  by (simp add: read_text_def example_world_def)

lemma find_issues_file_loads:
  "find_issues_file (P\<lparr>loads := f\<rparr>) w fp root cs = find_issues_file P w fp root cs"
proof -
  have root: "module_root (P\<lparr>loads := f\<rparr>) = module_root P" by simp
  show ?thesis unfolding find_issues_file_def root by (rule refl)
qed

text \<open>
  C7. Once the issues file is located, read and parsed, \<^verbatim>\<open>load_issues\<close> raises
  \<^verbatim>\<open>ValueError\<close> exactly when the parsed content is not a list of objects, with one
  message when it is not a list and another when an element is not an object, and
  otherwise returns the list as parsed.
\<close>

theorem load_issues_format_error:
  assumes "find_issues_file P w file_path None DEFAULT_ISSUE_FILE_CANDIDATES = Inr p"
    and "read_text w p = Inr t" and "loads P t = Some data"
  shows "((\<exists>msg. load_issues P w file_path = Inl (ValueError msg)) \<longleftrightarrow>
            \<not> (\<exists>items. data = JArr items \<and> list_all is_mapping items)) \<and>
         (\<forall>items. data = JArr items \<and> list_all is_mapping items \<longrightarrow>
            load_issues P w file_path = Inr items) \<and>
         (\<forall>items. data = JArr items \<and> \<not> list_all is_mapping items \<longrightarrow>
            load_issues P w file_path =
              Inl (ValueError ''Each issue entry must be a JSON object'')) \<and>
         ((\<forall>items. data \<noteq> JArr items) \<longrightarrow>
            load_issues P w file_path =
              Inl (ValueError ''The issues file must contain a JSON list''))"
  using assms
  by (cases data) (simp_all add: load_issues_def collect_issues_all)

theorem load_issues_format_error_witness:
  "find_issues_file example_platform example_world None None DEFAULT_ISSUE_FILE_CANDIDATES =
     Inr ''/repo/git_issues.json'' \<and>
   read_text example_world ''/repo/git_issues.json'' = Inr ''stored'' \<and>
   loads example_platform ''stored'' = Some (JArr example_issues) \<and>
   load_issues example_platform example_world None = Inr example_issues \<and>
   (\<exists>msg. load_issues (example_platform\<lparr>loads := \<lambda>t. Some (JObj Map.empty)\<rparr>) example_world
      None = Inl (ValueError msg)) \<and>
   (\<exists>msg. load_issues (example_platform\<lparr>loads := \<lambda>t. Some (JArr [JObj Map.empty, JInt 7])\<rparr>)
      example_world None = Inl (ValueError msg))"
proof -
  have parsed: "loads example_platform ''stored'' = Some (JArr example_issues)"
    by (simp add: example_platform_def)
  have objects: "list_all is_mapping example_issues"
    by (simp add: example_issues_def)
  from load_issues_format_error [OF example_found example_file parsed] objects
  have ok: "load_issues example_platform example_world None = Inr example_issues"
    by simp
  let ?P1 = "example_platform\<lparr>loads := \<lambda>t. Some (JObj Map.empty)\<rparr>"
  have f1: "find_issues_file ?P1 example_world None None DEFAULT_ISSUE_FILE_CANDIDATES =
      Inr ''/repo/git_issues.json''"
    by (simp add: find_issues_file_loads example_found)
  have p1: "loads ?P1 ''stored'' = Some (JObj Map.empty)" by simp
  from load_issues_format_error [OF f1 example_file p1]
  have e1: "\<exists>msg. load_issues ?P1 example_world None = Inl (ValueError msg)"
    by simp
  let ?P2 = "example_platform\<lparr>loads := \<lambda>t. Some (JArr [JObj Map.empty, JInt 7])\<rparr>"
  have f2: "find_issues_file ?P2 example_world None None DEFAULT_ISSUE_FILE_CANDIDATES =
      Inr ''/repo/git_issues.json''"
    by (simp add: find_issues_file_loads example_found)
  have p2: "loads ?P2 ''stored'' = Some (JArr [JObj Map.empty, JInt 7])" by simp
  from load_issues_format_error [OF f2 example_file p2]
  have e2: "\<exists>msg. load_issues ?P2 example_world None = Inl (ValueError msg)"
    by simp
  from example_found example_file parsed ok e1 e2 show ?thesis by blast
qed





section \<open>The order of the search\<close>

text \<open>
  \<^verbatim>\<open>find_issues_file\<close> decides in this order. An explicit path is the answer when
  it names a regular file and an error otherwise, whatever else would match. With no
  explicit path, the path in \<^verbatim>\<open>GIT_ISSUES_FILE\<close> is the answer when it is not empty and names
  a regular file. Otherwise the first candidate that is a regular file in the root, else
  the first one that is a regular file in an existing \<^verbatim>\<open>.git\<close>, else the first entry of the
  scan that bears a candidate's name, else an error.
\<close>

theorem find_issues_file_order:
  "(explicit_path = Some path \<longrightarrow>
      find_issues_file P w explicit_path search_root cs =
        (if is_file w path then Inr path
         else Inl (FileNotFoundError (''Issues file not found at '' @ path)))) \<and>
   (explicit_path = None \<and> environ w ''GIT_ISSUES_FILE'' = Some e \<and> e \<noteq> '''' \<and> is_file w e \<longrightarrow>
      find_issues_file P w explicit_path search_root cs = Inr e) \<and>
   (explicit_path = None \<and>
    (case environ w ''GIT_ISSUES_FILE'' of None \<Rightarrow> True | Some v \<Rightarrow> v = '''' \<or> \<not> is_file w v) \<and>
    search_root = Some root \<longrightarrow>
      find_issues_file P w explicit_path search_root cs =
        (case find (\<lambda>c. is_file w (joinpath root c)) cs of
           Some c \<Rightarrow> Inr (joinpath root c)
         | None \<Rightarrow>
             (case (if path_exists w (joinpath root ''.git'')
                    then find (\<lambda>c. is_file w (joinpath (joinpath root ''.git'') c)) cs
                    else None) of
                Some c \<Rightarrow> Inr (joinpath (joinpath root ''.git'') c)
              | None \<Rightarrow>
                  (case find (\<lambda>p. path_name p \<in> set cs) (rglob_json w root) of
                     Some p \<Rightarrow> Inr p
                   | None \<Rightarrow> Inl (FileNotFoundError ''Unable to locate a Git Issues JSON file'')))))"
  by (auto simp: find_issues_file_def split: option.splits)

theorem find_issues_file_order_witness:
  "find_issues_file example_platform example_git_world (Some ''/missing.json'') (Some ''/repo'')
     DEFAULT_ISSUE_FILE_CANDIDATES =
     Inl (FileNotFoundError ''Issues file not found at /missing.json'') \<and>
   find_issues_file example_platform
     (example_git_world\<lparr>environ := [''GIT_ISSUES_FILE'' \<mapsto> ''/elsewhere.json'']\<rparr>) None
     (Some ''/repo'') DEFAULT_ISSUE_FILE_CANDIDATES = Inr ''/elsewhere.json'' \<and>
   find_issues_file example_platform example_git_world None (Some ''/repo'')
     DEFAULT_ISSUE_FILE_CANDIDATES = Inr ''/repo/issues.json''"
proof -
  let ?w = "example_git_world\<lparr>environ := [''GIT_ISSUES_FILE'' \<mapsto> ''/elsewhere.json'']\<rparr>"
  have "find_issues_file example_platform example_git_world (Some ''/missing.json'')
      (Some ''/repo'') DEFAULT_ISSUE_FILE_CANDIDATES =
      Inl (FileNotFoundError ''Issues file not found at /missing.json'')"
    using find_issues_file_order [of "Some ''/missing.json''" "''/missing.json''"
        example_platform example_git_world "Some ''/repo''" DEFAULT_ISSUE_FILE_CANDIDATES]
    by (simp add: is_file_def example_git_world_def)
  moreover
  have "find_issues_file example_platform ?w None (Some ''/repo'')
      DEFAULT_ISSUE_FILE_CANDIDATES = Inr ''/elsewhere.json''"
    using find_issues_file_order [of None _ example_platform ?w "Some ''/repo''"
        DEFAULT_ISSUE_FILE_CANDIDATES "''/elsewhere.json''"]
    by (simp add: is_file_def example_git_world_def)
  moreover
  have "find_issues_file example_platform example_git_world None (Some ''/repo'')
      DEFAULT_ISSUE_FILE_CANDIDATES = Inr ''/repo/issues.json''"
    using find_issues_file_order [of None _ example_platform example_git_world "Some ''/repo''"
        DEFAULT_ISSUE_FILE_CANDIDATES _ "''/repo''"]
    by (simp add: is_file_def example_git_world_def DEFAULT_ISSUE_FILE_CANDIDATES_def
        joinpath_def)
  ultimately show ?thesis by blast
qed

section \<open>The directory scan\<close>

text \<open>
  C8. The scan of \<^verbatim>\<open>find_issues_file\<close> is not shallow and not limited to files. With no
  explicit path and no environment variable, it returns an issues file that lies inside
  four nested directories below the search root, and it returns a directory that bears a
  candidate name.
\<close>

theorem find_issues_file_scan_unbounded:
  "find_issues_file example_platform example_deep_world None (Some ''/repo'')
     DEFAULT_ISSUE_FILE_CANDIDATES = Inr ''/repo/a/b/c/d/issues.json'' \<and>
   find_issues_file example_platform example_dir_world None (Some ''/repo'')
     DEFAULT_ISSUE_FILE_CANDIDATES = Inr ''/repo/sub/issues.json'' \<and>
   \<not> is_file example_dir_world ''/repo/sub/issues.json''"
  by (simp add: find_issues_file_def example_deep_world_def example_dir_world_def
      DEFAULT_ISSUE_FILE_CANDIDATES_def is_file_def path_exists_def joinpath_def
      rglob_json_def path_name_def suffix_def)

section \<open>A status that is not text\<close>

lemma list_open_loop_raises:
  "\<not> list_all status_readable xs \<Longrightarrow> list_open_loop xs acc = Inl AttributeError"
proof (induction xs arbitrary: acc)
  case Nil
  then show ?case by simp
next
  case (Cons x xs)
  show ?case
  proof (cases "status_readable x")
    case True
    with Cons.prems have "\<not> list_all status_readable xs" by simp
    with Cons.IH True show ?thesis by (simp add: status_readable_status)
  next
    case False
    then show ?thesis by (simp add: issue_status_raises)
  qed
qed

lemma mark_loop_raises:
  assumes "'''' \<notin> M"
  shows "\<not> list_all status_readable xs \<Longrightarrow> mark_loop P M ns sk xs t = Inl AttributeError"
proof (induction xs arbitrary: t)
  case Nil
  then show ?case by simp
next
  case (Cons x xs)
  show ?case
  proof (cases "status_readable x")
    case True
    with Cons.prems have rest: "\<not> list_all status_readable xs" by simp
    from True have "readable x" by (rule status_readable_status)
    from mark_issue_readable [OF this assms, of P ns sk t] obtain y t' where
      "mark_issue P M ns sk x t = Inr (y, t')" by blast
    with Cons.IH [OF rest] show ?thesis by simp
  next
    case False
    then show ?thesis by (simp add: mark_issue_def issue_status_raises)
  qed
qed

text \<open>
  When some entry of the sequence holds, where the code reads it, a status that is
  neither text nor \<^verbatim>\<open>null\<close>, each of the three operations raises \<^verbatim>\<open>AttributeError\<close>.
\<close>

theorem status_not_text_raises:
  assumes "working_issues P w issues file_path = Inr current"
    and "\<not> list_all status_readable current"
  shows "list_open_issues P w issues file_path = Inl AttributeError \<and>
         close_implemented_issues P w issues file_path = Inl AttributeError \<and>
         complete_open_issues P w issues file_path = Inl AttributeError"
  using assms
  by (simp add: list_open_issues_def working_issues_def list_open_loop_raises
      close_implemented_issues_mark complete_open_issues_mark mark_issues_def mark_loop_raises)

theorem status_not_text_raises_witness:
  "working_issues example_platform example_world (Some [JObj [''status'' \<mapsto> JInt 5]]) None =
     Inr [JObj [''status'' \<mapsto> JInt 5]] \<and>
   \<not> list_all status_readable [JObj [''status'' \<mapsto> JInt 5]] \<and>
   list_open_issues example_platform example_world (Some [JObj [''status'' \<mapsto> JInt 5]]) None =
     Inl AttributeError \<and>
   close_implemented_issues example_platform example_world
     (Some [JObj [''status'' \<mapsto> JInt 5]]) None = Inl AttributeError \<and>
   complete_open_issues example_platform example_world
     (Some [JObj [''status'' \<mapsto> JInt 5]]) None = Inl AttributeError"
proof -
  have h1: "working_issues example_platform example_world
      (Some [JObj [''status'' \<mapsto> JInt 5]]) None = Inr [JObj [''status'' \<mapsto> JInt 5]]"
    by (simp add: working_issues_def)
  have h2: "\<not> list_all status_readable [JObj [''status'' \<mapsto> JInt 5]]"
    by (simp add: status_readable_def dict_get_def)
  from status_not_text_raises [OF h1 h2] h1 h2 show ?thesis by blast
qed

end
